theory Spec2Isabelle
  imports Main "HOL-Library.Multiset"
begin

section \<open>Go standard-library string functions used by the sources\<close>

text \<open>Go strings are byte sequences; they are modelled as \<^typ>\<open>string\<close> (a list of
  8-bit characters).  The functions below model the narrow part of package
  \<^verbatim>\<open>strings\<close> and of \<^verbatim>\<open>fmt.Sprintf\<close> (with \<^verbatim>\<open>%s\<close> verbs only, which is
  concatenation) that the sources call.\<close>

definition strings_HasPrefix :: "string \<Rightarrow> string \<Rightarrow> bool" where
  "strings_HasPrefix s p = (take (length p) s = p)"

definition strings_HasSuffix :: "string \<Rightarrow> string \<Rightarrow> bool" where
  "strings_HasSuffix s p = (length p \<le> length s \<and> drop (length s - length p) s = p)"

fun strings_Contains :: "string \<Rightarrow> string \<Rightarrow> bool" where
  "strings_Contains [] sub = (sub = [])"
| "strings_Contains (c # s) sub = (strings_HasPrefix (c # s) sub \<or> strings_Contains s sub)"

text \<open>\<^verbatim>\<open>strings.Split(s, sep)\<close> for a one-byte separator, the only kind the sources
  pass (\<^verbatim>\<open>"."\<close> and \<^verbatim>\<open>"\n"\<close>): the result always has one more element than
  there are separators in \<open>s\<close>.\<close>

fun strings_Split :: "string \<Rightarrow> char \<Rightarrow> string list" where
  "strings_Split [] sep = [[]]"
| "strings_Split (c # s) sep =
     (if c = sep then [] # strings_Split s sep
      else (case strings_Split s sep of
              [] \<Rightarrow> [[c]]
            | p # ps \<Rightarrow> (c # p) # ps))"

fun strings_Join :: "string list \<Rightarrow> string \<Rightarrow> string" where
  "strings_Join [] sep = []"
| "strings_Join [x] sep = x"
| "strings_Join (x # y # ys) sep = x @ sep @ strings_Join (y # ys) sep"

text \<open>\<^verbatim>\<open>strings.Replace(s, old, new, 1)\<close>: the first occurrence only.\<close>

fun strings_Replace1 :: "string \<Rightarrow> string \<Rightarrow> string \<Rightarrow> string" where
  "strings_Replace1 [] old new = (if old = [] then new else [])"
| "strings_Replace1 (c # s) old new =
     (if strings_HasPrefix (c # s) old then new @ drop (length old) (c # s)
      else c # strings_Replace1 s old new)"

text \<open>\<^verbatim>\<open>strings.TrimSpace\<close> on ASCII text: the white space of \<^verbatim>\<open>unicode.IsSpace\<close>
  below U+0080 is tab, line feed, vertical tab, form feed, carriage return and space.
  (The multi-byte white space of Unicode is not modelled; every input evaluated below is
  ASCII.)\<close>

definition isSpace :: "char \<Rightarrow> bool" where
  "isSpace c = (c \<in> set [CHR 0x09, CHR 0x0A, CHR 0x0B, CHR 0x0C, CHR 0x0D, CHR '' ''])"

definition strings_TrimSpace :: "string \<Rightarrow> string" where
  "strings_TrimSpace s = rev (dropWhile isSpace (rev (dropWhile isSpace s)))"

text \<open>Go compares strings bytewise, lexicographically.\<close>

fun string_less :: "string \<Rightarrow> string \<Rightarrow> bool" where
  "string_less [] [] = False"
| "string_less [] (y # ys) = True"
| "string_less (x # xs) [] = False"
| "string_less (x # xs) (y # ys) =
     ((of_char x :: nat) < of_char y \<or> (x = y \<and> string_less xs ys))"

section \<open>The host system as seen by the pure query functions\<close>

text \<open>The library and operating-system calls whose results the sources only read:
  \<^verbatim>\<open>filepath.Join\<close> of two elements, \<^verbatim>\<open>filepath.Dir\<close>, \<^verbatim>\<open>os.Stat\<close> (\<open>None\<close> is an error,
  \<open>Some d\<close> a file whose \<^verbatim>\<open>IsDir()\<close> is \<open>d\<close>), \<^verbatim>\<open>os.Getenv\<close>,
  \<^verbatim>\<open>os.ReadDir\<close> (the entry names, or \<open>None\<close> on error), the standard output
  of running a binary with \<^verbatim>\<open>-v\<close> (\<open>None\<close> when the command fails) and
  \<^verbatim>\<open>exec.LookPath\<close>.\<close>

record host =
  filepath_Join :: "string \<Rightarrow> string \<Rightarrow> string"
  filepath_Dir :: "string \<Rightarrow> string"
  os_Stat :: "string \<Rightarrow> bool option"
  os_Getenv :: "string \<Rightarrow> string"
  os_ReadDir :: "string \<Rightarrow> string list option"
  run_dash_v :: "string \<Rightarrow> string option"
  exec_LookPath :: "string \<Rightarrow> string option"

section \<open>Package nginx: socket path, document root, site configuration\<close>

definition GetPHPSocket :: "string \<Rightarrow> string" where
  "GetPHPSocket phpVersion =
     (let phpVersion = (if phpVersion = [] then ''8.2'' else phpVersion)
      in ''/var/run/php/php'' @ phpVersion @ ''-fpm.sock'')"

text \<open>The loop of \<^verbatim>\<open>GetDocumentRoot\<close> over \<^verbatim>\<open>publicDirs\<close>: the first joined path
  for which \<^verbatim>\<open>os.Stat\<close> succeeds and reports a directory is returned.\<close>

fun probe_dirs :: "host \<Rightarrow> string \<Rightarrow> string list \<Rightarrow> string option" where
  "probe_dirs h sitePath [] = None"
| "probe_dirs h sitePath (dir # dirs) =
     (let fullPath = filepath_Join h sitePath dir
      in (case os_Stat h fullPath of
            Some True \<Rightarrow> Some fullPath
          | _ \<Rightarrow> probe_dirs h sitePath dirs))"

definition publicDirs :: "string list" where
  "publicDirs = [''public'', ''public_html'', ''web'', ''htdocs'']"

definition GetDocumentRoot :: "host \<Rightarrow> string \<Rightarrow> string" where
  "GetDocumentRoot h sitePath =
     (case probe_dirs h sitePath publicDirs of
        Some fullPath \<Rightarrow> fullPath
      | None \<Rightarrow> sitePath)"

record SiteConfig =
  SiteName :: string
  Domain :: string
  ServerName :: string
  Root :: string
  SitePath :: string
  PHPVersion :: string
  PHPSocket :: string
  UseSSL :: bool
  ListenPort :: int
  CertPath :: string
  KeyPath :: string

definition CreateSiteConfig ::
  "host \<Rightarrow> string \<Rightarrow> string \<Rightarrow> string \<Rightarrow> string \<Rightarrow> bool \<Rightarrow> SiteConfig" where
  "CreateSiteConfig h siteName sitePath domain phpVersion useSSL =
     (let phpVersion = (if phpVersion = [] then ''8.2'' else phpVersion);
          serverName = siteName @ ''.'' @ domain;
          documentRoot = GetDocumentRoot h sitePath;
          phpSocket = GetPHPSocket phpVersion;
          cfg = \<lparr> SiteName = siteName, Domain = domain, ServerName = serverName,
                  Root = documentRoot, SitePath = sitePath, PHPVersion = phpVersion,
                  PHPSocket = phpSocket, UseSSL = useSSL, ListenPort = 80,
                  CertPath = [], KeyPath = [] \<rparr>
      in if useSSL then
           (let certDir = ''/home/'' @ os_Getenv h ''USER'' @ ''/.phppark/certificates''
            in cfg \<lparr> CertPath := filepath_Join h certDir (siteName @ ''.crt''),
                     KeyPath := filepath_Join h certDir (siteName @ ''.key'') \<rparr>)
         else cfg)"

section \<open>Package php: version parsing and detection\<close>

record PHPVersion =
  Version :: string
  FullPath :: string
  FPMSocket :: string
  IsDefault :: bool

datatype php_error = ExecFailed | CouldNotParse

definition isDigit :: "char \<Rightarrow> bool" where
  "isDigit c = (c \<in> set ''0123456789'')"

text \<open>The regular expression \<^verbatim>\<open>PHP (\d+\.\d+)\<close> of \<^verbatim>\<open>GetPHPVersionFromBinary\<close>,
  matched at the start of \<open>s\<close>.  Both \<^verbatim>\<open>\d+\<close> are greedy and a digit is never a dot,
  so a match at a position exists exactly when the longest run of digits after
  \<^verbatim>\<open>"PHP "\<close> is non-empty and followed by a dot and a digit; the group is then the
  two longest runs around the dot.\<close>

definition match_version_at :: "string \<Rightarrow> string option" where
  "match_version_at s =
     (if strings_HasPrefix s ''PHP '' then
        (let r = drop 4 s;
             major = takeWhile isDigit r;
             minor = takeWhile isDigit (drop 1 (dropWhile isDigit r))
         in if major \<noteq> [] \<and> take 1 (dropWhile isDigit r) = ''.'' \<and> minor \<noteq> []
            then Some (major @ ''.'' @ minor) else None)
      else None)"

text \<open>\<^verbatim>\<open>FindStringSubmatch\<close> returns the leftmost match.\<close>

fun find_version :: "string \<Rightarrow> string option" where
  "find_version [] = None"
| "find_version (c # s) =
     (case match_version_at (c # s) of
        Some v \<Rightarrow> Some v
      | None \<Rightarrow> find_version s)"

definition GetPHPVersionFromBinary :: "host \<Rightarrow> string \<Rightarrow> php_error + string" where
  "GetPHPVersionFromBinary h phpPath =
     (case run_dash_v h phpPath of
        None \<Rightarrow> Inl ExecFailed
      | Some output \<Rightarrow>
          (case find_version output of
             None \<Rightarrow> Inl CouldNotParse
           | Some v \<Rightarrow> Inr v))"

definition FormatVersion :: "string \<Rightarrow> string" where
  "FormatVersion version =
     (let parts = strings_Split version CHR ''.''
      in if length parts \<ge> 2 then parts ! 0 @ ''.'' @ parts ! 1 else version)"

text \<open>The inner loop of \<^verbatim>\<open>detectLinuxPHP\<close> over the entries of one search directory.
  The state is the slice \<^verbatim>\<open>versions\<close> and the set \<^verbatim>\<open>versionMap\<close> (a Go
  \<^verbatim>\<open>map[string]bool\<close>, absent keys reading \<open>False\<close>).\<close>

fun scan_entries ::
  "host \<Rightarrow> string \<Rightarrow> string list \<Rightarrow> PHPVersion list \<times> (string \<Rightarrow> bool)
     \<Rightarrow> PHPVersion list \<times> (string \<Rightarrow> bool)" where
  "scan_entries h searchPath [] acc = acc"
| "scan_entries h searchPath (name # entries) (versions, versionMap) =
     (if strings_HasPrefix name ''php'' \<and> length name > 3 then
        (let fullPath = filepath_Join h searchPath name
         in (case GetPHPVersionFromBinary h fullPath of
               Inl err \<Rightarrow> scan_entries h searchPath entries (versions, versionMap)
             | Inr v \<Rightarrow>
                 (let version = FormatVersion v
                  in if versionMap version
                     then scan_entries h searchPath entries (versions, versionMap)
                     else
                       (let fpmSocket = ''/var/run/php/php'' @ version @ ''-fpm.sock''
                        in scan_entries h searchPath entries
                             (versions @ [\<lparr> Version = version, FullPath = fullPath,
                                            FPMSocket = fpmSocket, IsDefault = False \<rparr>],
                              versionMap (version := True))))))
      else scan_entries h searchPath entries (versions, versionMap))"

text \<open>The outer loop over \<^verbatim>\<open>searchPaths\<close>; an unreadable directory is skipped.\<close>

fun scan_paths ::
  "host \<Rightarrow> string list \<Rightarrow> PHPVersion list \<times> (string \<Rightarrow> bool)
     \<Rightarrow> PHPVersion list \<times> (string \<Rightarrow> bool)" where
  "scan_paths h [] acc = acc"
| "scan_paths h (searchPath # rest) acc =
     (case os_ReadDir h searchPath of
        None \<Rightarrow> scan_paths h rest acc
      | Some entries \<Rightarrow> scan_paths h rest (scan_entries h searchPath entries acc))"

text \<open>The loop that marks the first entry of the given version as default and stops.\<close>

fun mark_default :: "string \<Rightarrow> PHPVersion list \<Rightarrow> PHPVersion list" where
  "mark_default version [] = []"
| "mark_default version (x # xs) =
     (if Version x = version then x \<lparr> IsDefault := True \<rparr> # xs
      else x # mark_default version xs)"

text \<open>\<^verbatim>\<open>sort.Slice\<close> belongs to the Go library.  It is modelled by the insertion sort
  that the library runs on slices of fewer than twelve elements: element \<open>i\<close> is swapped
  towards the front while the \<^verbatim>\<open>less\<close> function puts it before its left neighbour.  \<open>insert_left\<close> works
  on the already sorted prefix, held in reverse.\<close>

fun insert_left :: "('a \<Rightarrow> 'a \<Rightarrow> bool) \<Rightarrow> 'a \<Rightarrow> 'a list \<Rightarrow> 'a list" where
  "insert_left lt x [] = [x]"
| "insert_left lt x (y # ys) =
     (if lt x y then y # insert_left lt x ys else x # y # ys)"

definition sort_Slice :: "('a \<Rightarrow> 'a \<Rightarrow> bool) \<Rightarrow> 'a list \<Rightarrow> 'a list" where
  "sort_Slice lt xs = rev (foldl (\<lambda>pre x. insert_left lt x pre) [] xs)"

definition searchPaths :: "string list" where
  "searchPaths = [''/usr/bin'', ''/usr/local/bin'']"

text \<open>\<^verbatim>\<open>detectLinuxPHP\<close>; its error result is always \<^verbatim>\<open>nil\<close> and is left out.\<close>

definition detectLinuxPHP :: "host \<Rightarrow> PHPVersion list" where
  "detectLinuxPHP h =
     (let versions = fst (scan_paths h searchPaths ([], \<lambda>k. False));
          versions =
            (case exec_LookPath h ''php'' of
               None \<Rightarrow> versions
             | Some defaultPath \<Rightarrow>
                 (case GetPHPVersionFromBinary h defaultPath of
                    Inl err \<Rightarrow> versions
                  | Inr v \<Rightarrow> mark_default (FormatVersion v) versions))
      in sort_Slice (\<lambda>a b. string_less (Version b) (Version a)) versions)"

text \<open>Numeric reading of a normalized version, after the specification's
  ``numeric on major.minor'': the decimal values of the first two components.\<close>

definition decimal :: "string \<Rightarrow> nat" where
  "decimal s = foldl (\<lambda>n c. 10 * n + (of_char c - 48)) 0 s"

definition major_minor :: "string \<Rightarrow> nat \<times> nat" where
  "major_minor v =
     (let parts = strings_Split v CHR ''.''
      in (decimal (parts ! 0), if length parts \<ge> 2 then decimal (parts ! 1) else 0))"

definition version_ge :: "string \<Rightarrow> string \<Rightarrow> bool" where
  "version_ge a b =
     (fst (major_minor a) > fst (major_minor b)
      \<or> (fst (major_minor a) = fst (major_minor b)
          \<and> snd (major_minor a) \<ge> snd (major_minor b)))"

text \<open>A host with two interpreters in \<^verbatim>\<open>/usr/bin\<close>, of versions 8.2.15 and 10.0.1.\<close>

definition host_8_2_and_10_0 :: host where
  "host_8_2_and_10_0 =
     \<lparr> filepath_Join = (\<lambda>a b. a @ ''/'' @ b),
       filepath_Dir = (\<lambda>p. rev (drop 1 (dropWhile (\<lambda>c. c \<noteq> CHR ''/'') (rev p)))),
       os_Stat = (\<lambda>p. None),
       os_Getenv = (\<lambda>k. []),
       os_ReadDir = (\<lambda>d. if d = ''/usr/bin'' then Some [''php8.2'', ''php10.0''] else None),
       run_dash_v = (\<lambda>p. if p = ''/usr/bin/php8.2'' then Some ''PHP 8.2.15 (cli)''
                           else if p = ''/usr/bin/php10.0'' then Some ''PHP 10.0.1 (cli)''
                           else None),
       exec_LookPath = (\<lambda>n. None) \<rparr>"

text \<open>A host with interpreters in both search directories, version 8.2 twice, and a
  default alias of version 8.3.\<close>

definition host_two_dirs :: host where
  "host_two_dirs =
     \<lparr> filepath_Join = (\<lambda>a b. a @ ''/'' @ b),
       filepath_Dir = (\<lambda>p. rev (drop 1 (dropWhile (\<lambda>c. c \<noteq> CHR ''/'') (rev p)))),
       os_Stat = (\<lambda>p. if p = ''/srv/app/public'' then Some True else None),
       os_Getenv = (\<lambda>k. []),
       os_ReadDir = (\<lambda>d. if d = ''/usr/bin'' then Some [''php'', ''php8.2'', ''phpize'', ''php8.3'']
                           else if d = ''/usr/local/bin'' then Some [''php8.2'']
                           else None),
       run_dash_v = (\<lambda>p. if p = ''/usr/bin/php8.2'' then Some ''PHP 8.2.15 (cli)''
                           else if p = ''/usr/local/bin/php8.2'' then Some ''PHP 8.2.20 (cli)''
                           else if p = ''/usr/bin/php8.3'' then Some ''PHP 8.3.1 (cli)''
                           else if p = ''/usr/bin/php'' then Some ''PHP 8.3.1 (cli)''
                           else None),
       exec_LookPath = (\<lambda>n. if n = ''php'' then Some ''/usr/bin/php'' else None) \<rparr>"

text \<open>The invariant of the detection loops, used in the proofs below: every entry
  collected so far has a non-empty, normalized version and the socket path built from
  it, the versions are pairwise different, and each is recorded in the map.\<close>

definition entry_ok :: "PHPVersion \<Rightarrow> bool" where
  "entry_ok e =
     (Version e \<noteq> [] \<and> FormatVersion (Version e) = Version e
      \<and> FPMSocket e = ''/var/run/php/php'' @ Version e @ ''-fpm.sock'')"

definition scan_inv :: "PHPVersion list \<times> (string \<Rightarrow> bool) \<Rightarrow> bool" where
  "scan_inv acc =
     (list_all entry_ok (fst acc) \<and> distinct (map Version (fst acc))
      \<and> (\<forall>e \<in> set (fst acc). snd acc (Version e)))"


section \<open>Package dns: the stub listener of the system resolver\<close>

abbreviation LF :: char where
  "LF \<equiv> CHR 0x0A"

definition resolvedStubSymlink :: string where
  "resolvedStubSymlink = ''/run/systemd/resolve/stub-resolv.conf''"

definition systemdResolveResolvConf :: string where
  "systemdResolveResolvConf = ''/run/systemd/resolve/resolv.conf''"

text \<open>The text that \<^verbatim>\<open>setDNSStubListener\<close> computes from the prior content of
  \<^verbatim>\<open>/etc/systemd/resolved.conf\<close>, between reading the file and writing it back.\<close>

definition is_directive :: "string \<Rightarrow> bool" where
  "is_directive line = strings_HasPrefix (strings_TrimSpace line) ''DNSStubListener=''"

definition stub_listener_content :: "string \<Rightarrow> string \<Rightarrow> string" where
  "stub_listener_content val content =
     (if val = [] then
        strings_Join (filter (\<lambda>line. \<not> is_directive line) (strings_Split content LF)) [LF]
      else
        (let newSetting = ''DNSStubListener='' @ val
         in if strings_Contains content ''DNSStubListener='' then
              strings_Join
                (map (\<lambda>line. if is_directive line then newSetting else line)
                   (strings_Split content LF)) [LF]
            else if strings_Contains content ''[Resolve]'' then
              strings_Replace1 content ''[Resolve]'' (''[Resolve]'' @ [LF] @ newSetting)
            else
              (let content = (if content \<noteq> [] \<and> \<not> strings_HasSuffix content [LF]
                              then content @ [LF] else content)
               in content @ [LF] @ ''[Resolve]'' @ [LF] @ newSetting @ [LF])))"

text \<open>The part of the file system that the stub-listener functions touch: the content
  of \<^verbatim>\<open>/etc/systemd/resolved.conf\<close> and of \<^verbatim>\<open>/etc/dnsmasq.d/phppark.conf\<close>
  (\<open>None\<close>: the file does not exist), what \<^verbatim>\<open>/etc/resolv.conf\<close> is, for each
  target that a link at \<^verbatim>\<open>/etc/resolv.conf\<close> can have whether it leads to a directory
  (\<open>is_dir\<close>), and the content last written through \<^verbatim>\<open>/etc/resolv.conf\<close> while it was
  a symbolic link.  \<open>log\<close> lists the system calls and child processes run so far.\<close>

datatype node = Missing | Regular string | Symlink string

datatype dns_cmd =
    ReadResolvedConf | TeeResolvedConf | RestartResolved | StatUpstream | TeePhpparkConf
  | LstatResolvConf | ReadlinkResolvConf | TeeResolvConf
  | RmPhpparkConf | RmResolvConf | LnResolvConf

record dns_state =
  resolved_conf :: "string option"
  phppark_conf :: "string option"
  etc_resolv_conf :: node
  is_dir :: "string \<Rightarrow> bool"
  written_through_link :: "string option"
  log :: "dns_cmd list"

datatype dns_error =
    ReadError | WriteError | RestartError | UpstreamWriteError | ResolvConfWriteError
  | RestoreError | ConfigureError dns_error | RevertConfError dns_error

text \<open>Whether a call succeeds is decided by the environment, from the calls made so
  far: \<open>env past c\<close> is the success of \<open>c\<close> after the calls \<open>past\<close>.\<close>

type_synonym dns_env = "dns_cmd list \<Rightarrow> dns_cmd \<Rightarrow> bool"

definition run :: "dns_env \<Rightarrow> dns_cmd \<Rightarrow> dns_state \<Rightarrow> bool \<times> dns_state" where
  "run env c s = (env (log s) c, s \<lparr> log := log s @ [c] \<rparr>)"

text \<open>\<^verbatim>\<open>setDNSStubListener\<close>.  A read that fails for another reason than a missing
  file is an error; a missing file reads as the empty text.\<close>

definition setDNSStubListener ::
  "dns_env \<Rightarrow> string \<Rightarrow> dns_state \<Rightarrow> dns_error option \<times> dns_state" where
  "setDNSStubListener env val s =
     (let (readable, s1) = run env ReadResolvedConf s
      in if \<not> readable then (Some ReadError, s1)
         else
           (let content = (case resolved_conf s1 of None \<Rightarrow> [] | Some data \<Rightarrow> data);
                content = stub_listener_content val content;
                (written, s2) = run env TeeResolvedConf s1
            in if \<not> written then (Some WriteError, s2)
               else (None, s2 \<lparr> resolved_conf := Some content \<rparr>)))"

definition buildDnsmasqUpstreamConf :: "dns_env \<Rightarrow> dns_state \<Rightarrow> string \<times> dns_state" where
  "buildDnsmasqUpstreamConf env s =
     (let (present, s1) = run env StatUpstream s
      in if present
         then (''# Managed by PHPark'' @ [LF] @ ''resolv-file='' @ systemdResolveResolvConf @ [LF], s1)
         else (''# Managed by PHPark'' @ [LF] @ ''server=8.8.8.8'' @ [LF] @ ''server=1.1.1.1'' @ [LF], s1))"

text \<open>The \<^verbatim>\<open>tee\<close> utility opens its file following symbolic links: writing to
  \<^verbatim>\<open>/etc/resolv.conf\<close> while it is a link changes the link's target file and leaves the
  link in place.  It cannot write to a directory: through a link that leads to one it
  fails.\<close>

definition tee_resolv_conf :: "string \<Rightarrow> dns_state \<Rightarrow> dns_state" where
  "tee_resolv_conf content s =
     (case etc_resolv_conf s of
        Symlink target \<Rightarrow> s \<lparr> written_through_link := Some content \<rparr>
      | _ \<Rightarrow> s \<lparr> etc_resolv_conf := Regular content \<rparr>)"

definition DisableSystemdResolvedStub :: "dns_env \<Rightarrow> dns_state \<Rightarrow> dns_error option \<times> dns_state" where
  "DisableSystemdResolvedStub env s =
     (case setDNSStubListener env ''no'' s of
        (Some err, s1) \<Rightarrow> (Some (ConfigureError err), s1)
      | (None, s1) \<Rightarrow>
          (let (restarted, s2) = run env RestartResolved s1
           in if \<not> restarted then (Some RestartError, s2)
              else
                (let (upstreamConf, s3) = buildDnsmasqUpstreamConf env s2;
                     (written, s4) = run env TeePhpparkConf s3
                 in if \<not> written then (Some UpstreamWriteError, s4)
                    else
                      (let s5 = s4 \<lparr> phppark_conf := Some upstreamConf \<rparr>;
                           (statted, s6) = run env LstatResolvConf s5
                       in (case etc_resolv_conf s6 of
                             Symlink link \<Rightarrow>
                               if statted then
                                 (let (resolved, s7) = run env ReadlinkResolvConf s6;
                                      target = (if resolved then link else [])
                                  in if strings_Contains target ''systemd'' then
                                       (let content = ''# Managed by PHPark'' @ [LF]
                                                        @ ''nameserver 127.0.0.1'' @ [LF];
                                            (replaced, s8) = run env TeeResolvConf s7
                                        in if \<not> replaced \<or> is_dir s8 link
                                           then (Some ResolvConfWriteError, s8)
                                           else (None, tee_resolv_conf content s8))
                                     else (None, s7))
                               else (None, s6)
                           | _ \<Rightarrow> (None, s6))))))"

text \<open>The effect of a successful \<^verbatim>\<open>ln -sf\<close> of the stub path to \<^verbatim>\<open>/etc/resolv.conf\<close>,
  which is run without \<^verbatim>\<open>-n\<close> or \<^verbatim>\<open>-T\<close>.  Where nothing, a regular file or a link
  that does not lead to a directory is in the way, \<^verbatim>\<open>/etc/resolv.conf\<close> becomes the
  link to the stub path.  Through a link that leads to a directory the new link is
  made inside that directory, and \<^verbatim>\<open>/etc/resolv.conf\<close> stays the link it was.\<close>

definition ln_sf_resolv_conf :: "dns_state \<Rightarrow> dns_state" where
  "ln_sf_resolv_conf s =
     (case etc_resolv_conf s of
        Symlink target \<Rightarrow>
          if is_dir s target then s
          else s \<lparr> etc_resolv_conf := Symlink resolvedStubSymlink \<rparr>
      | _ \<Rightarrow> s \<lparr> etc_resolv_conf := Symlink resolvedStubSymlink \<rparr>)"

text \<open>\<^verbatim>\<open>RevertSystemdResolvedStub\<close>.  The results of the two \<^verbatim>\<open>rm -f\<close> are ignored:
  a removal that fails leaves its file as it is.\<close>

definition RevertSystemdResolvedStub :: "dns_env \<Rightarrow> dns_state \<Rightarrow> dns_error option \<times> dns_state" where
  "RevertSystemdResolvedStub env s =
     (case setDNSStubListener env [] s of
        (Some err, s1) \<Rightarrow> (Some (RevertConfError err), s1)
      | (None, s1) \<Rightarrow>
          (let (restarted, s2) = run env RestartResolved s1
           in if \<not> restarted then (Some RestartError, s2)
              else
                (let (removed, s3) = run env RmPhpparkConf s2;
                     s3 = (if removed then s3 \<lparr> phppark_conf := None \<rparr> else s3);
                     (unlinked, s4) = run env RmResolvConf s3;
                     s4 = (if unlinked then s4 \<lparr> etc_resolv_conf := Missing \<rparr> else s4);
                     (linked, s5) = run env LnResolvConf s4
                 in if \<not> linked then (Some RestoreError, s5)
                    else (None, ln_sf_resolv_conf s5))))"

text \<open>The stock configuration of the system resolver: the section header and the
  directive as a comment.\<close>

definition stock_resolved_conf :: string where
  "stock_resolved_conf =
     ''[Resolve]'' @ [LF] @ ''#DNS='' @ [LF] @ ''#DNSStubListener=yes'' @ [LF]"

text \<open>A machine with the stock configuration whose \<^verbatim>\<open>/etc/resolv.conf\<close> links to the
  resolver's file of upstream servers, and an environment in which every call succeeds.\<close>

definition linked_to_upstream :: dns_state where
  "linked_to_upstream =
     \<lparr> resolved_conf = Some stock_resolved_conf, phppark_conf = None,
       etc_resolv_conf = Symlink ''/run/systemd/resolve/resolv.conf'',
       is_dir = (\<lambda>target. target = ''/run/systemd/resolve''),
       written_through_link = None, log = [] \<rparr>"

definition all_succeed :: dns_env where
  "all_succeed = (\<lambda>past c. True)"

text \<open>The same machine with \<^verbatim>\<open>/etc/resolv.conf\<close> linked to the resolver's directory,
  and an environment in which only the removal of \<^verbatim>\<open>/etc/resolv.conf\<close> fails.\<close>

definition linked_to_directory :: dns_state where
  "linked_to_directory =
     linked_to_upstream \<lparr> etc_resolv_conf := Symlink ''/run/systemd/resolve'' \<rparr>"

definition removal_fails :: dns_env where
  "removal_fails = (\<lambda>past c. c \<noteq> RmResolvConf)"

section \<open>Package services: deploying a virtual host to the proxy\<close>

text \<open>The system calls and child processes of the deployment functions and of the
  command layer, and how one can end: without error, with the error that
  \<^verbatim>\<open>os.IsNotExist\<close> recognises, or with another error.  A trace lists the calls made,
  each with its outcome, oldest first; the environment decides each outcome from the
  trace so far.\<close>

datatype outcome = Ok | NotExist | Failed

datatype sys_call =
    OsReadFile string | OsMkdirAll string | OsWriteFile string | OsRemove string
  | OsSymlink string string | OsStat string
  | ExecNginxTest | ExecSystemctlReloadNginx | ExecNginxSignalReload
  | LoadSitesFile | SaveSitesFile | LoadConfigFile | GetPathsCall

type_synonym trace = "(sys_call \<times> outcome) list"

type_synonym sys_env = "trace \<Rightarrow> sys_call \<Rightarrow> outcome"

definition sys :: "sys_env \<Rightarrow> sys_call \<Rightarrow> trace \<Rightarrow> outcome \<times> trace" where
  "sys env c tr = (env tr c, tr @ [(c, env tr c)])"

datatype deploy_error =
    CopyFailed | SymlinkFailed | ConfigTestFailed | ReloadFailed
  | RemoveEnabledFailed | RemoveAvailableFailed

text \<open>The helpers return \<open>True\<close> for a \<^verbatim>\<open>nil\<close> error.\<close>

definition copyFile :: "host \<Rightarrow> sys_env \<Rightarrow> string \<Rightarrow> string \<Rightarrow> trace \<Rightarrow> bool \<times> trace" where
  "copyFile h env src dst tr =
     (let (r1, tr1) = sys env (OsReadFile src) tr
      in if r1 \<noteq> Ok then (False, tr1)
         else
           (let (r2, tr2) = sys env (OsMkdirAll (filepath_Dir h dst)) tr1
            in if r2 \<noteq> Ok then (False, tr2)
               else (let (r3, tr3) = sys env (OsWriteFile dst) tr2 in (r3 = Ok, tr3))))"

definition createSymlink :: "sys_env \<Rightarrow> string \<Rightarrow> string \<Rightarrow> trace \<Rightarrow> bool \<times> trace" where
  "createSymlink env src dst tr =
     (let (r1, tr1) = sys env (OsRemove dst) tr;
          (r2, tr2) = sys env (OsSymlink src dst) tr1
      in (r2 = Ok, tr2))"

definition TestNginxConfig :: "sys_env \<Rightarrow> trace \<Rightarrow> bool \<times> trace" where
  "TestNginxConfig env tr = (let (r, tr1) = sys env ExecNginxTest tr in (r = Ok, tr1))"

definition ReloadNginx :: "sys_env \<Rightarrow> trace \<Rightarrow> bool \<times> trace" where
  "ReloadNginx env tr =
     (let (r1, tr1) = sys env ExecSystemctlReloadNginx tr
      in if r1 \<noteq> Ok then
           (let (r2, tr2) = sys env ExecNginxSignalReload tr1 in (r2 = Ok, tr2))
         else (True, tr1))"

definition DeployNginxConfig ::
  "host \<Rightarrow> sys_env \<Rightarrow> string \<Rightarrow> string \<Rightarrow> trace \<Rightarrow> deploy_error option \<times> trace" where
  "DeployNginxConfig h env siteName configPath tr =
     (let sitesAvailable = ''/etc/nginx/sites-available'';
          sitesEnabled = ''/etc/nginx/sites-enabled'';
          defaultSite = filepath_Join h sitesEnabled ''default'';
          availablePath = filepath_Join h sitesAvailable (siteName @ ''.conf'');
          enabledPath = filepath_Join h sitesEnabled (siteName @ ''.conf'');
          (copied, tr1) = copyFile h env configPath availablePath tr
      in if \<not> copied then (Some CopyFailed, tr1)
         else
           (let (linked, tr2) = createSymlink env availablePath enabledPath tr1
            in if \<not> linked then (Some SymlinkFailed, tr2)
               else
                 (let (found, tr3) = sys env (OsStat defaultSite) tr2;
                      tr4 = (if found = Ok then snd (sys env (OsRemove defaultSite) tr3) else tr3);
                      (valid, tr5) = TestNginxConfig env tr4
                  in if \<not> valid then (Some ConfigTestFailed, tr5)
                     else
                       (let (reloaded, tr6) = ReloadNginx env tr5
                        in if \<not> reloaded then (Some ReloadFailed, tr6)
                           else (None, tr6)))))"

definition RemoveNginxConfig ::
  "host \<Rightarrow> sys_env \<Rightarrow> string \<Rightarrow> trace \<Rightarrow> deploy_error option \<times> trace" where
  "RemoveNginxConfig h env siteName tr =
     (let sitesAvailable = ''/etc/nginx/sites-available'';
          sitesEnabled = ''/etc/nginx/sites-enabled'';
          availablePath = filepath_Join h sitesAvailable (siteName @ ''.conf'');
          enabledPath = filepath_Join h sitesEnabled (siteName @ ''.conf'');
          (r1, tr1) = sys env (OsRemove enabledPath) tr
      in if r1 = Failed then (Some RemoveEnabledFailed, tr1)
         else
           (let (r2, tr2) = sys env (OsRemove availablePath) tr1
            in if r2 = Failed then (Some RemoveAvailableFailed, tr2)
               else
                 (let (valid, tr3) = TestNginxConfig env tr2
                  in if \<not> valid then (Some ConfigTestFailed, tr3)
                     else
                       (let (reloaded, tr4) = ReloadNginx env tr3
                        in if \<not> reloaded then (Some ReloadFailed, tr4)
                           else (None, tr4)))))"

text \<open>The two kinds of trace entries that the ordering claim is about: a syntax check
  of the proxy configuration, and a reload by either of the two commands of
  \<^verbatim>\<open>ReloadNginx\<close>.  A trace is \<open>quiet\<close> when it has neither.\<close>

definition is_validation :: "sys_call \<times> outcome \<Rightarrow> bool" where
  "is_validation e = (fst e = ExecNginxTest)"

definition is_reload :: "sys_call \<times> outcome \<Rightarrow> bool" where
  "is_reload e = (fst e = ExecSystemctlReloadNginx \<or> fst e = ExecNginxSignalReload)"

definition quiet :: "trace \<Rightarrow> bool" where
  "quiet tr = list_all (\<lambda>e. \<not> is_validation e \<and> \<not> is_reload e) tr"

text \<open>An environment in which the syntax check fails and everything else succeeds, and
  one in which every call succeeds.\<close>

definition invalid_config_env :: sys_env where
  "invalid_config_env = (\<lambda>tr c. if c = ExecNginxTest then Failed else Ok)"

definition all_ok_env :: sys_env where
  "all_ok_env = (\<lambda>tr c. Ok)"

section \<open>The site registry and the unlink command\<close>

record Site =
  Name :: string
  Path :: string
  Type :: string
  PHPVersion :: string
  Secured :: bool

text \<open>Modelled from the spec: the method \<^verbatim>\<open>FindSite\<close> of the registry (package
  \<^verbatim>\<open>config\<close>) is not among the sources.  ``\<^verbatim>\<open>find(name) -> Site?\<close>'': lookup by
  name in the ordered collection; the callers test the result against \<^verbatim>\<open>nil\<close>.\<close>

fun FindSite :: "Site list \<Rightarrow> string \<Rightarrow> Site option" where
  "FindSite [] name = None"
| "FindSite (s # sites) name = (if Name s = name then Some s else FindSite sites name)"

text \<open>Modelled from the spec: the method \<^verbatim>\<open>AddSite\<close> of the registry is not among the
  sources.  ``\<^verbatim>\<open>upsert(Site)\<close> (replace-by-name or append)'', ``a re-insertion with an
  existing name replaces the prior record in place (update semantics)''; the callers
  comment their calls ``Updates existing''.\<close>

fun AddSite :: "Site list \<Rightarrow> Site \<Rightarrow> Site list" where
  "AddSite [] site = [site]"
| "AddSite (s # sites) site =
     (if Name s = Name site then site # sites else s # AddSite sites site)"

text \<open>Modelled from the spec: the method \<^verbatim>\<open>RemoveSite\<close> of the registry is not among
  the sources.  ``delete by name''; \<^verbatim>\<open>runUnlink\<close> ignores any result of it.\<close>

fun RemoveSite :: "Site list \<Rightarrow> string \<Rightarrow> Site list" where
  "RemoveSite [] name = []"
| "RemoveSite (s # sites) name =
     (if Name s = name then sites else s # RemoveSite sites name)"

text \<open>The registry over its life: ``created empty at install time'', then changed by
  upserts and removals only.\<close>

datatype registry_op = Upsert Site | Delete string

fun apply_op :: "Site list \<Rightarrow> registry_op \<Rightarrow> Site list" where
  "apply_op sites (Upsert site) = AddSite sites site"
| "apply_op sites (Delete name) = RemoveSite sites name"

definition registry_after :: "registry_op list \<Rightarrow> Site list" where
  "registry_after ops = foldl apply_op [] ops"

text \<open>The persisted registry together with the trace of calls.\<close>

record world =
  sites_file :: "Site list"
  calls :: trace

text \<open>Modelled from the spec: \<^verbatim>\<open>LoadSites\<close> of package \<^verbatim>\<open>config\<close> is not among
  the sources.  ``All persistence is whole-document: load the entire registry, mutate
  in memory, write the entire registry back'';
  ``\<^verbatim>\<open>load() -> Registry | fails(IOError, ParseError)\<close>''.\<close>

definition LoadSites :: "sys_env \<Rightarrow> world \<Rightarrow> Site list option \<times> world" where
  "LoadSites env w =
     (let (r, tr) = sys env LoadSitesFile (calls w)
      in (if r = Ok then Some (sites_file w) else None, w \<lparr> calls := tr \<rparr>))"

text \<open>Modelled from the spec: \<^verbatim>\<open>SaveSites\<close> of package \<^verbatim>\<open>config\<close> is not among
  the sources.  ``\<^verbatim>\<open>save(Registry) -> fails(IOError)\<close>'', ``rewritten atomically
  (whole-file replace)'': a save that fails leaves the file as it was.\<close>

definition SaveSites :: "sys_env \<Rightarrow> Site list \<Rightarrow> world \<Rightarrow> bool \<times> world" where
  "SaveSites env sites w =
     (let (r, tr) = sys env SaveSitesFile (calls w)
      in if r = Ok then (True, w \<lparr> calls := tr, sites_file := sites \<rparr>)
         else (False, w \<lparr> calls := tr \<rparr>))"

datatype unlink_error =
    LoadSitesFailed | SiteNotFound string | LoadConfigFailed | GetPathsFailed
  | RemoveConfigFailed | SaveSitesFailed

text \<open>\<^verbatim>\<open>runUnlink\<close>, without its printing.  \<open>goos\<close> is \<^verbatim>\<open>runtime.GOOS\<close> and
  \<open>nginxDir\<close> the field \<^verbatim>\<open>Nginx\<close> of the paths that \<^verbatim>\<open>config.GetPaths\<close> returns.\<close>

definition runUnlink ::
  "host \<Rightarrow> sys_env \<Rightarrow> string \<Rightarrow> string \<Rightarrow> string \<Rightarrow> world \<Rightarrow> unlink_error option \<times> world" where
  "runUnlink h env goos nginxDir siteName w =
     (case LoadSites env w of
        (None, w1) \<Rightarrow> (Some LoadSitesFailed, w1)
      | (Some sites, w1) \<Rightarrow>
          (case FindSite sites siteName of
             None \<Rightarrow> (Some (SiteNotFound siteName), w1)
           | Some site \<Rightarrow>
               (let (rc, tr2) = sys env LoadConfigFile (calls w1)
                in if rc \<noteq> Ok then (Some LoadConfigFailed, w1 \<lparr> calls := tr2 \<rparr>)
                   else
                     (let (rp, tr3) = sys env GetPathsCall tr2
                      in if rp \<noteq> Ok then (Some GetPathsFailed, w1 \<lparr> calls := tr3 \<rparr>)
                         else
                           (let configPath = filepath_Join h nginxDir (siteName @ ''.conf'');
                                (rr, tr4) = sys env (OsRemove configPath) tr3
                            in if rr = Failed then (Some RemoveConfigFailed, w1 \<lparr> calls := tr4 \<rparr>)
                               else
                                 (let tr5 = (if goos = ''linux''
                                             then snd (RemoveNginxConfig h env siteName tr4)
                                             else tr4);
                                      sites = RemoveSite sites siteName
                                  in (case SaveSites env sites (w1 \<lparr> calls := tr5 \<rparr>) of
                                        (False, w2) \<Rightarrow> (Some SaveSitesFailed, w2)
                                      | (True, w2) \<Rightarrow> (None, w2))))))))"

text \<open>Two sites, and a registry file holding them.\<close>

definition blog_site :: Site where
  "blog_site = \<lparr> Name = ''blog'', Path = ''/srv/blog'', Type = ''link'',
                  PHPVersion = [], Secured = False \<rparr>"

definition shop_site :: Site where
  "shop_site = \<lparr> Name = ''shop'', Path = ''/srv/shop'', Type = ''park'',
                  PHPVersion = ''8.3'', Secured = True \<rparr>"

definition two_sites :: world where
  "two_sites = \<lparr> sites_file = [blog_site, shop_site], calls = [] \<rparr>"

section \<open>Properties of the string functions and of version parsing\<close>


lemma Split_not_Nil: "strings_Split s c \<noteq> []"
  by (induction s) (auto split: list.splits)

lemma Split_sep_free: "p \<in> set (strings_Split s c) \<Longrightarrow> c \<notin> set p"
  by (induction s arbitrary: p) (auto split: list.splits if_splits)

lemma Split_no_sep: "c \<notin> set s \<Longrightarrow> strings_Split s c = [s]"
  by (induction s) auto

lemma Split_append: "c \<notin> set a \<Longrightarrow> strings_Split (a @ c # b) c = a # strings_Split b c"
  by (induction a) (auto split: list.splits)

lemma Split_Join:
  "ps \<noteq> [] \<Longrightarrow> \<forall>p\<in>set ps. c \<notin> set p \<Longrightarrow> strings_Split (strings_Join ps [c]) c = ps"
proof (induction ps "[c]" rule: strings_Join.induct)
  case 1
  then show ?case by simp
next
  case (2 x)
  then show ?case by (simp add: Split_no_sep)
next
  case (3 x y ys)
  then show ?case by (simp add: Split_append)
qed

lemma FormatVersion_two:
  "CHR ''.'' \<notin> set a \<Longrightarrow> CHR ''.'' \<notin> set b \<Longrightarrow> FormatVersion (a @ CHR ''.'' # b) = a @ CHR ''.'' # b"
  by (simp add: FormatVersion_def Split_append Split_no_sep)

lemma FormatVersion_idem: "FormatVersion (FormatVersion v) = FormatVersion v"
proof (cases "length (strings_Split v CHR ''.'') \<ge> 2")
  case True
  then have "strings_Split v CHR ''.'' ! 0 \<in> set (strings_Split v CHR ''.'')"
    and "strings_Split v CHR ''.'' ! 1 \<in> set (strings_Split v CHR ''.'')"
    by (auto intro: nth_mem)
  then have "CHR ''.'' \<notin> set (strings_Split v CHR ''.'' ! 0)"
    and "CHR ''.'' \<notin> set (strings_Split v CHR ''.'' ! 1)"
    by (auto dest: Split_sep_free)
  moreover have "FormatVersion v = strings_Split v CHR ''.'' ! 0 @ ''.'' @ strings_Split v CHR ''.'' ! 1"
    using True by (simp add: FormatVersion_def Let_def)
  ultimately show ?thesis
    using FormatVersion_two [of "strings_Split v CHR ''.'' ! 0" "strings_Split v CHR ''.'' ! 1"]
    by simp
next
  case False
  then show ?thesis by (simp add: FormatVersion_def)
qed

lemma FormatVersion_not_empty: "v \<noteq> [] \<Longrightarrow> FormatVersion v \<noteq> []"
  by (simp add: FormatVersion_def Let_def)

lemma match_version_at_not_empty: "match_version_at s = Some v \<Longrightarrow> v \<noteq> []"
  by (auto simp: match_version_at_def Let_def split: if_splits)

lemma find_version_not_empty: "find_version s = Some v \<Longrightarrow> v \<noteq> []"
  by (induction s) (auto split: option.splits dest: match_version_at_not_empty)

lemma GetPHPVersionFromBinary_not_empty: "GetPHPVersionFromBinary h p = Inr v \<Longrightarrow> v \<noteq> []"
  by (auto simp: GetPHPVersionFromBinary_def split: option.splits dest: find_version_not_empty)

lemma scan_entries_inv: "scan_inv acc \<Longrightarrow> scan_inv (scan_entries h sp entries acc)"
proof (induction h sp entries acc rule: scan_entries.induct)
  case (1 h searchPath acc)
  then show ?case by simp
next
  case (2 h searchPath name entries versions versionMap)
  show ?case
  proof (cases "strings_HasPrefix name ''php'' \<and> length name > 3")
    case False
    from False "2.IH"(4) "2.prems" show ?thesis by auto
  next
    case pre: True
    show ?thesis
    proof (cases "GetPHPVersionFromBinary h (filepath_Join h searchPath name)")
      case (Inl a)
      with 2 pre show ?thesis by simp
    next
      case (Inr v)
      show ?thesis
      proof (cases "versionMap (FormatVersion v)")
        case True
        with 2 pre Inr show ?thesis by simp
      next
        case False
        have ne: "FormatVersion v \<noteq> []"
          using Inr by (auto dest: GetPHPVersionFromBinary_not_empty FormatVersion_not_empty)
        let ?e = "\<lparr> Version = FormatVersion v, FullPath = filepath_Join h searchPath name,
                     FPMSocket = ''/var/run/php/php'' @ FormatVersion v @ ''-fpm.sock'',
                     IsDefault = False \<rparr>"
        have "scan_inv (versions @ [?e], versionMap (FormatVersion v := True))"
          using "2.prems" False ne
          by (auto simp: scan_inv_def entry_ok_def FormatVersion_idem)
        with "2.IH"(3)[OF pre refl Inr refl False refl] pre Inr False
        show ?thesis by (simp add: Let_def)
      qed
    qed
  qed
qed

lemma scan_paths_inv: "scan_inv acc \<Longrightarrow> scan_inv (scan_paths h sps acc)"
proof (induction sps arbitrary: acc)
  case Nil
  then show ?case by simp
next
  case (Cons sp sps)
  show ?case
  proof (cases "os_ReadDir h sp")
    case None
    with Cons show ?thesis by simp
  next
    case (Some entries)
    have "scan_inv (scan_entries h sp entries acc)"
      using Cons.prems by (rule scan_entries_inv)
    then have "scan_inv (scan_paths h sps (scan_entries h sp entries acc))"
      by (rule Cons.IH)
    with Some show ?thesis by simp
  qed
qed

lemma mark_default_Version: "map Version (mark_default v xs) = map Version xs"
  by (induction xs) auto

lemma mark_default_ok: "list_all entry_ok xs \<Longrightarrow> list_all entry_ok (mark_default v xs)"
  by (induction xs) (auto simp: entry_ok_def)

lemma mset_insert_left: "mset (insert_left lt x ys) = add_mset x (mset ys)"
  by (induction ys) auto

lemma mset_foldl_insert_left:
  "mset (foldl (\<lambda>pre x. insert_left lt x pre) acc xs) = mset acc + mset xs"
  by (induction xs arbitrary: acc) (auto simp: mset_insert_left)

lemma mset_sort_Slice: "mset (sort_Slice lt xs) = mset xs"
  by (simp add: sort_Slice_def mset_foldl_insert_left)


lemma detect_scan_inv: "scan_inv (scan_paths h searchPaths ([], \<lambda>k. False))"
  by (rule scan_paths_inv) (simp add: scan_inv_def)

lemma detect_entries_ok: "list_all entry_ok (detectLinuxPHP h)"
proof -
  let ?vs = "fst (scan_paths h searchPaths ([], \<lambda>k. False))"
  have ok: "list_all entry_ok ?vs"
    using detect_scan_inv [of h] by (simp add: scan_inv_def)
  have "\<And>lt v. list_all entry_ok (sort_Slice lt (mark_default v ?vs))"
    using mark_default_ok [OF ok] mset_sort_Slice
    by (metis list_all_iff set_mset_mset)
  moreover have "\<And>lt. list_all entry_ok (sort_Slice lt ?vs)"
    using ok mset_sort_Slice by (metis list_all_iff set_mset_mset)
  ultimately show ?thesis
    by (simp add: detectLinuxPHP_def Let_def split: option.splits sum.splits)
qed

lemma sort_Slice_distinct:
  "distinct (map f xs) \<Longrightarrow> distinct (map f (sort_Slice lt xs))"
proof -
  assume a: "distinct (map f xs)"
  have "mset (map f (sort_Slice lt xs)) = mset (map f xs)"
    by (simp add: mset_sort_Slice)
  then show ?thesis
    using a by (metis mset_eq_imp_distinct_iff)
qed

lemma detect_distinct: "distinct (map Version (detectLinuxPHP h))"
proof -
  let ?vs = "fst (scan_paths h searchPaths ([], \<lambda>k. False))"
  have d: "distinct (map Version ?vs)"
    using detect_scan_inv [of h] by (simp add: scan_inv_def)
  have "\<And>v. distinct (map Version (mark_default v ?vs))"
    using d by (simp add: mark_default_Version)
  then show ?thesis
    using d by (simp add: detectLinuxPHP_def Let_def sort_Slice_distinct
        split: option.splits sum.splits)
qed

lemma probe_dirs_find:
  "probe_dirs h sitePath dirs
     = find (\<lambda>p. os_Stat h p = Some True) (map (filepath_Join h sitePath) dirs)"
  by (induction dirs) (auto simp: Let_def split: option.splits bool.splits)

section \<open>Claims about package nginx\<close>

text \<open>Claim C10. Whenever the runtime-version argument of \<^verbatim>\<open>CreateSiteConfig\<close> (and of
  \<^verbatim>\<open>GetPHPSocket\<close>) is the empty string, the hardcoded version 8.2 is substituted: the
  configuration carries PHPVersion 8.2 and the socket of version 8.2.  No configured
  default version is an input of either function, so the result cannot depend on it.\<close>

theorem C10_empty_version_defaults_to_8_2:
  "SiteConfig.PHPVersion (CreateSiteConfig h siteName sitePath domain [] useSSL) = ''8.2''
   \<and> PHPSocket (CreateSiteConfig h siteName sitePath domain [] useSSL)
       = ''/var/run/php/php8.2-fpm.sock''
   \<and> GetPHPSocket [] = ''/var/run/php/php8.2-fpm.sock''"
  by (simp add: CreateSiteConfig_def GetPHPSocket_def Let_def)

text \<open>Claim C6. For every site path, \<^verbatim>\<open>GetDocumentRoot\<close> probes the names public,
  public_html, web, htdocs in that order and returns the first joined path that exists
  as a directory, and the site path itself when there is none; in particular, when
  the public subdirectory exists the result is the site path joined with public.\<close>

theorem C6_document_root_first_existing:
  "GetDocumentRoot h sitePath =
     (case find (\<lambda>p. os_Stat h p = Some True)
             (map (filepath_Join h sitePath) [''public'', ''public_html'', ''web'', ''htdocs'']) of
        Some p \<Rightarrow> p
      | None \<Rightarrow> sitePath)
   \<and> (os_Stat h (filepath_Join h sitePath ''public'') = Some True
        \<longrightarrow> GetDocumentRoot h sitePath = filepath_Join h sitePath ''public'')"
  by (simp add: GetDocumentRoot_def probe_dirs_find publicDirs_def)

theorem C6_document_root_witness:
  "os_Stat host_two_dirs (filepath_Join host_two_dirs ''/srv/app'' ''public'') = Some True
   \<and> GetDocumentRoot host_two_dirs ''/srv/app'' = ''/srv/app/public''
   \<and> GetDocumentRoot host_two_dirs ''/srv/other'' = ''/srv/other''"
  using C6_document_root_first_existing [of host_two_dirs "''/srv/app''"]
    C6_document_root_first_existing [of host_two_dirs "''/srv/other''"]
  by (simp add: host_two_dirs_def)

section \<open>Claims about package php\<close>

text \<open>Claim C3 (fails on the code). The claim is that \<^verbatim>\<open>detectLinuxPHP\<close> returns the
  versions newest first under numeric comparison of major.minor, version 10.0 before
  version 8.2.  The sort compares the version strings bytewise, so on a host with
  interpreters 8.2 and 10.0 the result lists 8.2 first although 10.0 is numerically the
  newer one.\<close>

theorem C3_string_order_puts_8_2_before_10_0:
  "map Version (detectLinuxPHP host_8_2_and_10_0) = [''8.2'', ''10.0'']
   \<and> version_ge ''10.0'' ''8.2'' \<and> \<not> version_ge ''8.2'' ''10.0''"
  by code_simp

text \<open>Claim C7. \<^verbatim>\<open>FormatVersion\<close> maps both 8.2.15 and 8.2 to 8.2; for every version
  string of at least two dot-separated components it returns the first two components
  joined by a dot; and no two entries of a result of \<^verbatim>\<open>detectLinuxPHP\<close> have the same
  normalized version.\<close>

theorem C7_version_normalization:
  "FormatVersion ''8.2.15'' = ''8.2'' \<and> FormatVersion ''8.2'' = ''8.2''
   \<and> (\<forall>ps. 2 \<le> length ps \<and> (\<forall>p\<in>set ps. CHR ''.'' \<notin> set p)
          \<longrightarrow> FormatVersion (strings_Join ps ''.'') = ps ! 0 @ ''.'' @ ps ! 1)
   \<and> distinct (map (\<lambda>e. FormatVersion (Version e)) (detectLinuxPHP h))"
proof -
  have a: "FormatVersion ''8.2.15'' = ''8.2''" and b: "FormatVersion ''8.2'' = ''8.2''"
    by (simp_all add: FormatVersion_def)
  have c: "FormatVersion (strings_Join ps ''.'') = ps ! 0 @ ''.'' @ ps ! 1"
    if "2 \<le> length ps" and "\<forall>p\<in>set ps. CHR ''.'' \<notin> set p" for ps
  proof -
    from that(1) have "ps \<noteq> []" by auto
    then have "strings_Split (strings_Join ps ''.'') CHR ''.'' = ps"
      using that(2) by (rule Split_Join)
    with that(1) show ?thesis by (simp add: FormatVersion_def)
  qed
  have e: "map (\<lambda>e. FormatVersion (Version e)) (detectLinuxPHP h) = map Version (detectLinuxPHP h)"
    using detect_entries_ok [of h] by (simp add: list_all_iff entry_ok_def)
  have d: "distinct (map (\<lambda>e. FormatVersion (Version e)) (detectLinuxPHP h))"
    unfolding e by (rule detect_distinct)
  from a b c d show ?thesis by blast
qed

theorem C7_version_normalization_witness:
  "2 \<le> length [''8'', ''2'', ''15'']
   \<and> CHR ''.'' \<notin> set ''8'' \<and> CHR ''.'' \<notin> set ''2'' \<and> CHR ''.'' \<notin> set ''15''
   \<and> FormatVersion (strings_Join [''8'', ''2'', ''15''] ''.'') = ''8.2''
   \<and> distinct (map (\<lambda>e. FormatVersion (Version e)) (detectLinuxPHP host_two_dirs))"
  using C7_version_normalization [of host_two_dirs] by simp

text \<open>Claim C8. The virtual-host generator and the detector build the pool-socket
  path alike: for every non-empty version \<open>v\<close>, \<^verbatim>\<open>GetPHPSocket\<close> gives
  \<^verbatim>\<open>/var/run/php/php\<close> followed by \<open>v\<close> and \<^verbatim>\<open>-fpm.sock\<close>, and for every entry that
  \<^verbatim>\<open>detectLinuxPHP\<close> returns, \<^verbatim>\<open>GetPHPSocket\<close> of its version is its socket.\<close>

theorem C8_socket_paths_agree:
  "(v \<noteq> [] \<longrightarrow> GetPHPSocket v = ''/var/run/php/php'' @ v @ ''-fpm.sock'')
   \<and> (\<forall>e\<in>set (detectLinuxPHP h). GetPHPSocket (Version e) = FPMSocket e)"
  using detect_entries_ok [of h]
  by (auto simp: GetPHPSocket_def list_all_iff entry_ok_def)

theorem C8_socket_paths_agree_witness:
  "''8.3'' \<noteq> [] \<and> GetPHPSocket ''8.3'' = ''/var/run/php/php8.3-fpm.sock''
   \<and> \<lparr> Version = ''8.3'', FullPath = ''/usr/bin/php8.3'',
        FPMSocket = ''/var/run/php/php8.3-fpm.sock'', IsDefault = True \<rparr>
       \<in> set (detectLinuxPHP host_two_dirs)
   \<and> GetPHPSocket (Version \<lparr> Version = ''8.3'', FullPath = ''/usr/bin/php8.3'',
        FPMSocket = ''/var/run/php/php8.3-fpm.sock'', IsDefault = True \<rparr>)
       = FPMSocket \<lparr> Version = ''8.3'', FullPath = ''/usr/bin/php8.3'',
        FPMSocket = ''/var/run/php/php8.3-fpm.sock'', IsDefault = True \<rparr>"
proof -
  have m: "\<lparr> Version = ''8.3'', FullPath = ''/usr/bin/php8.3'',
        FPMSocket = ''/var/run/php/php8.3-fpm.sock'', IsDefault = True \<rparr>
       \<in> set (detectLinuxPHP host_two_dirs)"
    by code_simp
  show ?thesis
    using m C8_socket_paths_agree [of "''8.3''" host_two_dirs] by auto
qed

section \<open>Claims about package dns\<close>

lemma run_keeps_link:
  "etc_resolv_conf (snd (run env c s)) = etc_resolv_conf s \<and> is_dir (snd (run env c s)) = is_dir s"
  by (simp add: run_def)

lemma setDNSStubListener_keeps_link:
  "etc_resolv_conf (snd (setDNSStubListener env val s)) = etc_resolv_conf s
   \<and> is_dir (snd (setDNSStubListener env val s)) = is_dir s"
  by (simp add: setDNSStubListener_def run_def Let_def)

lemma buildDnsmasqUpstreamConf_keeps_link:
  "etc_resolv_conf (snd (buildDnsmasqUpstreamConf env s)) = etc_resolv_conf s
   \<and> is_dir (snd (buildDnsmasqUpstreamConf env s)) = is_dir s"
  by (simp add: buildDnsmasqUpstreamConf_def run_def Let_def)

lemma tee_resolv_conf_keeps_link:
  "etc_resolv_conf s = Symlink link \<Longrightarrow>
   etc_resolv_conf (tee_resolv_conf content s) = Symlink link
   \<and> is_dir (tee_resolv_conf content s) = is_dir s"
  by (simp add: tee_resolv_conf_def)

lemma disable_keeps_link:
  "etc_resolv_conf (snd (DisableSystemdResolvedStub env s)) = etc_resolv_conf s
   \<and> is_dir (snd (DisableSystemdResolvedStub env s)) = is_dir s"
proof -
  obtain r s1 where a: "setDNSStubListener env ''no'' s = (r, s1)" by force
  have k1: "etc_resolv_conf s1 = etc_resolv_conf s \<and> is_dir s1 = is_dir s"
    using setDNSStubListener_keeps_link [of env "''no''" s] a by simp
  show ?thesis
  proof (cases r)
    case (Some err)
    with a k1 show ?thesis by (simp add: DisableSystemdResolvedStub_def)
  next
    case None
    with a k1 show ?thesis
      by (cases "etc_resolv_conf s")
        (simp_all add: DisableSystemdResolvedStub_def buildDnsmasqUpstreamConf_def run_def
          tee_resolv_conf_def Let_def)
  qed
qed

lemma revert_ok_link:
  assumes "RevertSystemdResolvedStub env s1 = (None, s2)"
    and "\<And>target. etc_resolv_conf s1 = Symlink target \<Longrightarrow> \<not> is_dir s1 target"
  shows "etc_resolv_conf s2 = Symlink resolvedStubSymlink"
proof -
  obtain r t1 where a: "setDNSStubListener env [] s1 = (r, t1)" by force
  have k: "etc_resolv_conf t1 = etc_resolv_conf s1 \<and> is_dir t1 = is_dir s1"
    using setDNSStubListener_keeps_link [of env "[]" s1] a by simp
  have nodir: "\<not> is_dir t1 target" if "etc_resolv_conf t1 = Symlink target" for target
    using that k assms(2) by simp
  from assms(1) a have "r = None"
    by (cases r) (simp_all add: RevertSystemdResolvedStub_def)
  with assms(1) a nodir show ?thesis
    by (cases "etc_resolv_conf t1")
      (auto simp: RevertSystemdResolvedStub_def run_def ln_sf_resolv_conf_def Let_def
        split: if_splits)
qed

text \<open>Where the link leads to a directory and its removal fails, a revert that returns
  without error leaves the link as it was.\<close>

lemma revert_keeps_link_to_directory:
  "fst (RevertSystemdResolvedStub removal_fails linked_to_directory) = None
   \<and> etc_resolv_conf (snd (RevertSystemdResolvedStub removal_fails linked_to_directory))
       = Symlink ''/run/systemd/resolve''"
  by code_simp

text \<open>Claim C4 (fails on the code). The claim is that for every prior content of the
  resolver's configuration file the first step of disabling the stub produces a
  content with the line DNSStubListener=no.  The stock file mentions the directive
  only as a comment: the text contains \<^verbatim>\<open>DNSStubListener=\<close>, so the replacing branch
  is taken, yet no line starts with it, so nothing is replaced; the file is written
  back unchanged, without the line, and the function reports success.\<close>

theorem C4_commented_directive_defeats_the_setting:
  "stub_listener_content ''no'' stock_resolved_conf = stock_resolved_conf
   \<and> ''DNSStubListener=no'' \<notin> set (strings_Split (stub_listener_content ''no'' stock_resolved_conf) LF)
   \<and> fst (setDNSStubListener all_succeed ''no'' linked_to_upstream) = None
   \<and> resolved_conf (snd (setDNSStubListener all_succeed ''no'' linked_to_upstream))
       = Some stock_resolved_conf"
  by code_simp

text \<open>Claim C5 (as stated, fails on the code). The claim is that disabling and then
  reverting the stub gives \<^verbatim>\<open>/etc/resolv.conf\<close> back as a symbolic link with the
  target it had before.  With a link to the resolver's file of upstream servers and
  every call succeeding, the link that comes back has another target.\<close>

theorem C5_original_target_lost_counterexample:
  "etc_resolv_conf linked_to_upstream = Symlink ''/run/systemd/resolve/resolv.conf''
   \<and> strings_Contains ''/run/systemd/resolve/resolv.conf'' ''systemd''
   \<and> fst (DisableSystemdResolvedStub all_succeed linked_to_upstream) = None
   \<and> fst (RevertSystemdResolvedStub all_succeed
             (snd (DisableSystemdResolvedStub all_succeed linked_to_upstream))) = None
   \<and> etc_resolv_conf (snd (RevertSystemdResolvedStub all_succeed
             (snd (DisableSystemdResolvedStub all_succeed linked_to_upstream))))
       \<noteq> Symlink ''/run/systemd/resolve/resolv.conf''"
  by code_simp

text \<open>Claim C5, amended. From every state in which \<^verbatim>\<open>/etc/resolv.conf\<close> is a symbolic
  link into the system resolver, to one of its files and not to a directory, when the
  stub is disabled and then reverted and the revert returns without error,
  \<^verbatim>\<open>/etc/resolv.conf\<close> is again a symbolic link and its target is the fixed path
  \<^verbatim>\<open>/run/systemd/resolve/stub-resolv.conf\<close>; it is the link of before exactly when
  that was the target before.\<close>

theorem C5_revert_restores_standard_link:
  assumes "etc_resolv_conf s = Symlink target"
    and "strings_Contains target ''systemd''"
    and "\<not> is_dir s target"
    and "fst (RevertSystemdResolvedStub env (snd (DisableSystemdResolvedStub env s))) = None"
  shows "etc_resolv_conf (snd (RevertSystemdResolvedStub env (snd (DisableSystemdResolvedStub env s))))
           = Symlink resolvedStubSymlink
         \<and> (etc_resolv_conf (snd (RevertSystemdResolvedStub env
                (snd (DisableSystemdResolvedStub env s)))) = etc_resolv_conf s
              \<longleftrightarrow> target = resolvedStubSymlink)"
proof -
  let ?s1 = "snd (DisableSystemdResolvedStub env s)"
  let ?r = "RevertSystemdResolvedStub env ?s1"
  have kept: "etc_resolv_conf ?s1 = Symlink target" "is_dir ?s1 = is_dir s"
    using disable_keeps_link [of env s] assms(1) by simp_all
  have nodir: "\<not> is_dir ?s1 t" if "etc_resolv_conf ?s1 = Symlink t" for t
    using that kept assms(3) by simp
  have "?r = (None, snd ?r)"
    using assms(4) by (metis prod.collapse)
  then have "etc_resolv_conf (snd ?r) = Symlink resolvedStubSymlink"
    using nodir by (rule revert_ok_link)
  with assms(1) show ?thesis by auto
qed

theorem C5_revert_restores_standard_link_witness:
  "etc_resolv_conf linked_to_upstream = Symlink ''/run/systemd/resolve/resolv.conf''
   \<and> strings_Contains ''/run/systemd/resolve/resolv.conf'' ''systemd''
   \<and> \<not> is_dir linked_to_upstream ''/run/systemd/resolve/resolv.conf''
   \<and> fst (DisableSystemdResolvedStub all_succeed linked_to_upstream) = None
   \<and> fst (RevertSystemdResolvedStub all_succeed
             (snd (DisableSystemdResolvedStub all_succeed linked_to_upstream))) = None
   \<and> etc_resolv_conf (snd (RevertSystemdResolvedStub all_succeed
             (snd (DisableSystemdResolvedStub all_succeed linked_to_upstream))))
       = Symlink ''/run/systemd/resolve/stub-resolv.conf''"
proof -
  let ?d = "DisableSystemdResolvedStub all_succeed linked_to_upstream"
  let ?r = "RevertSystemdResolvedStub all_succeed (snd ?d)"
  have a: "etc_resolv_conf linked_to_upstream = Symlink ''/run/systemd/resolve/resolv.conf''"
    by (simp add: linked_to_upstream_def)
  have b: "strings_Contains ''/run/systemd/resolve/resolv.conf'' ''systemd''"
    by code_simp
  have c: "\<not> is_dir linked_to_upstream ''/run/systemd/resolve/resolv.conf''"
    by (simp add: linked_to_upstream_def)
  have d: "fst ?d = None" by code_simp
  have e: "fst ?r = None" by code_simp
  from C5_revert_restores_standard_link [OF a b c e] a b c d e show ?thesis
    by (simp add: resolvedStubSymlink_def)
qed

section \<open>Claims about package services\<close>

lemma quiet_append [simp]: "quiet (xs @ ys) = (quiet xs \<and> quiet ys)"
  by (simp add: quiet_def)

lemma quiet_sys:
  "c \<noteq> ExecNginxTest \<Longrightarrow> c \<noteq> ExecSystemctlReloadNginx \<Longrightarrow> c \<noteq> ExecNginxSignalReload
   \<Longrightarrow> quiet tr \<Longrightarrow> quiet (snd (sys env c tr))"
  by (simp add: sys_def quiet_def is_validation_def is_reload_def)

lemma quiet_copyFile: "quiet tr \<Longrightarrow> quiet (snd (copyFile h env src dst tr))"
  by (simp add: copyFile_def sys_def quiet_def is_validation_def is_reload_def Let_def)

lemma quiet_createSymlink: "quiet tr \<Longrightarrow> quiet (snd (createSymlink env src dst tr))"
  by (simp add: createSymlink_def sys_def quiet_def is_validation_def is_reload_def Let_def)


lemma TestNginxConfig_trace:
  "TestNginxConfig env tr = (env tr ExecNginxTest = Ok, tr @ [(ExecNginxTest, env tr ExecNginxTest)])"
  by (simp add: TestNginxConfig_def sys_def)

lemma ReloadNginx_trace:
  "\<exists>rl. snd (ReloadNginx env tr) = tr @ rl \<and> rl \<noteq> [] \<and> list_all is_reload rl"
  by (simp add: ReloadNginx_def sys_def is_reload_def Let_def)

lemma deploy_shape:
  assumes "DeployNginxConfig h env siteName configPath [] = (res, tr)"
  shows "(quiet tr \<and> (res = Some CopyFailed \<or> res = Some SymlinkFailed))
       \<or> (\<exists>q r. quiet q \<and> r \<noteq> Ok \<and> tr = q @ [(ExecNginxTest, r)] \<and> res = Some ConfigTestFailed)
       \<or> (\<exists>q rl. quiet q \<and> rl \<noteq> [] \<and> list_all is_reload rl \<and> tr = q @ (ExecNginxTest, Ok) # rl
             \<and> (res = None \<or> res = Some ReloadFailed))"
proof -
  let ?sa = "''/etc/nginx/sites-available''" and ?se = "''/etc/nginx/sites-enabled''"
  let ?av = "filepath_Join h ?sa (siteName @ ''.conf'')"
  let ?en = "filepath_Join h ?se (siteName @ ''.conf'')"
  let ?df = "filepath_Join h ?se ''default''"
  obtain copied tr1 where c: "copyFile h env configPath ?av [] = (copied, tr1)" by force
  have q1: "quiet tr1" using quiet_copyFile [of "[]" h env configPath ?av] c by (simp add: quiet_def)
  show ?thesis
  proof (cases copied)
    case False
    with c q1 assms [symmetric] show ?thesis by (simp add: DeployNginxConfig_def Let_def)
  next
    case True
    obtain linked tr2 where l: "createSymlink env ?av ?en tr1 = (linked, tr2)" by force
    have q2: "quiet tr2" using quiet_createSymlink [OF q1, of env ?av ?en] l by simp
    show ?thesis
    proof (cases linked)
      case False
      with c l True q2 assms [symmetric] show ?thesis by (simp add: DeployNginxConfig_def Let_def)
    next
      case lk: True
      obtain found tr3 where f: "sys env (OsStat ?df) tr2 = (found, tr3)" by force
      have q3: "quiet tr3" using quiet_sys [OF _ _ _ q2, of "OsStat ?df" env] f by simp
      define tr4 where "tr4 = (if found = Ok then snd (sys env (OsRemove ?df) tr3) else tr3)"
      have q4: "quiet tr4"
        using quiet_sys [OF _ _ _ q3, of "OsRemove ?df" env] q3 by (simp add: tr4_def)
      let ?r = "env tr4 ExecNginxTest"
      have rest: "(res, tr) =
          (if ?r \<noteq> Ok then (Some ConfigTestFailed, tr4 @ [(ExecNginxTest, ?r)])
           else (if \<not> fst (ReloadNginx env (tr4 @ [(ExecNginxTest, ?r)])) then Some ReloadFailed else None,
                 snd (ReloadNginx env (tr4 @ [(ExecNginxTest, ?r)]))))"
        using c l f True lk assms [symmetric]
        by (simp add: DeployNginxConfig_def Let_def TestNginxConfig_trace tr4_def case_prod_beta)
      show ?thesis
      proof (cases "?r = Ok")
        case False
        with rest q4 show ?thesis by auto
      next
        case ok: True
        obtain rl where rl: "snd (ReloadNginx env (tr4 @ [(ExecNginxTest, ?r)])) = (tr4 @ [(ExecNginxTest, ?r)]) @ rl"
          "rl \<noteq> []" "list_all is_reload rl"
          using ReloadNginx_trace [of env "tr4 @ [(ExecNginxTest, ?r)]"] by blast
        from rest ok rl q4 show ?thesis
          by (intro disjI2) (rule exI [of _ tr4], rule exI [of _ rl], auto)
      qed
    qed
  qed
qed

lemma quiet_nth: "quiet q \<Longrightarrow> i < length q \<Longrightarrow> \<not> is_reload (q ! i) \<and> \<not> is_validation (q ! i)"
  by (simp add: quiet_def list_all_length)

lemma quiet_no_reload: "quiet q \<Longrightarrow> e \<in> set q \<Longrightarrow> \<not> is_reload e"
  by (simp add: quiet_def list_all_iff)

text \<open>Claim C1. In \<^verbatim>\<open>DeployNginxConfig\<close> the validation of the proxy configuration
  always runs before the reload: in the trace of every execution each reload entry
  comes after a validation entry.  And when the validation fails the operation aborts
  with an error before the reload: in every execution whose trace has a failed
  validation, the result is the validation error and the trace has no reload entry.\<close>

theorem C1_validation_before_reload:
  assumes "DeployNginxConfig h env siteName configPath [] = (res, tr)"
  shows "(\<forall>j<length tr. is_reload (tr ! j) \<longrightarrow> (\<exists>i<j. is_validation (tr ! i)))
       \<and> ((\<exists>r. r \<noteq> Ok \<and> (ExecNginxTest, r) \<in> set tr)
            \<longrightarrow> res = Some ConfigTestFailed \<and> filter is_reload tr = [])"
proof -
  from deploy_shape [OF assms]
  consider (early) "quiet tr"
    | (invalid) q r where "quiet q" "r \<noteq> Ok" "tr = q @ [(ExecNginxTest, r)]" "res = Some ConfigTestFailed"
    | (valid) q rl where "quiet q" "tr = q @ (ExecNginxTest, Ok) # rl" "list_all is_reload rl"
    by blast
  then show ?thesis
  proof cases
    case early
    have "\<not> is_reload (tr ! j)" if "j < length tr" for j
      using that early quiet_nth [of tr j] by simp
    moreover have "(ExecNginxTest, r) \<notin> set tr" for r
      using early by (auto simp: quiet_def list_all_iff is_validation_def)
    ultimately show ?thesis by blast
  next
    case invalid
    have "\<not> is_reload (tr ! j)" if "j < length tr" for j
      using that invalid quiet_nth [of q j]
      by (cases "j < length q") (auto simp: nth_append is_reload_def)
    moreover have "filter is_reload tr = []"
      using invalid by (auto simp: filter_empty_conv is_reload_def dest: quiet_no_reload)
    ultimately show ?thesis using invalid by auto
  next
    case valid
    have a: "\<exists>i<j. is_validation (tr ! i)" if "j < length tr" "is_reload (tr ! j)" for j
    proof -
      have "\<not> j < length q" using that valid quiet_nth [of q j] by (auto simp: nth_append)
      moreover have "j \<noteq> length q" using that valid by (auto simp: nth_append is_reload_def)
      ultimately have "length q < j" by simp
      moreover have "is_validation (tr ! length q)" using valid by (simp add: is_validation_def)
      ultimately show ?thesis by blast
    qed
    have b: "\<not> (\<exists>r. r \<noteq> Ok \<and> (ExecNginxTest, r) \<in> set tr)"
    proof
      assume "\<exists>r. r \<noteq> Ok \<and> (ExecNginxTest, r) \<in> set tr"
      then obtain r where r: "r \<noteq> Ok" "(ExecNginxTest, r) \<in> set tr" by blast
      then have "(ExecNginxTest, r) \<in> set q \<or> (ExecNginxTest, r) \<in> set rl"
        using valid by auto
      then show False
      proof
        assume "(ExecNginxTest, r) \<in> set q"
        then show False using valid(1) by (auto simp: quiet_def list_all_iff is_validation_def)
      next
        assume "(ExecNginxTest, r) \<in> set rl"
        then show False using valid(3) by (auto simp: list_all_iff is_reload_def)
      qed
    qed
    from a b show ?thesis by blast
  qed
qed

theorem C1_validation_before_reload_witness:
  "fst (DeployNginxConfig host_two_dirs invalid_config_env ''blog'' ''/tmp/blog.conf'' [])
     = Some ConfigTestFailed
   \<and> Failed \<noteq> Ok
   \<and> (ExecNginxTest, Failed)
       \<in> set (snd (DeployNginxConfig host_two_dirs invalid_config_env ''blog'' ''/tmp/blog.conf'' []))
   \<and> filter is_reload
        (snd (DeployNginxConfig host_two_dirs invalid_config_env ''blog'' ''/tmp/blog.conf'' [])) = []
   \<and> 8 < length (snd (DeployNginxConfig host_two_dirs all_ok_env ''blog'' ''/tmp/blog.conf'' []))
   \<and> is_reload (snd (DeployNginxConfig host_two_dirs all_ok_env ''blog'' ''/tmp/blog.conf'' []) ! 8)
   \<and> (\<exists>i<8. is_validation
          (snd (DeployNginxConfig host_two_dirs all_ok_env ''blog'' ''/tmp/blog.conf'' []) ! i))"
proof -
  let ?bad = "DeployNginxConfig host_two_dirs invalid_config_env ''blog'' ''/tmp/blog.conf'' []"
  let ?good = "DeployNginxConfig host_two_dirs all_ok_env ''blog'' ''/tmp/blog.conf'' []"
  have m: "(ExecNginxTest, Failed) \<in> set (snd ?bad)" by code_simp
  have l: "8 < length (snd ?good)" by code_simp
  have r: "is_reload (snd ?good ! 8)" by code_simp
  have bad: "?bad = (fst ?bad, snd ?bad)" and good: "?good = (fst ?good, snd ?good)"
    by simp_all
  from C1_validation_before_reload [OF bad] m
  have "fst ?bad = Some ConfigTestFailed \<and> filter is_reload (snd ?bad) = []"
    by blast
  moreover from C1_validation_before_reload [OF good] l r
  have "\<exists>i<8. is_validation (snd ?good ! i)"
    by blast
  ultimately show ?thesis using m l r by simp
qed

section \<open>Claims about the registry and the unlink command\<close>

lemma FindSite_None_iff: "FindSite sites n = None \<longleftrightarrow> n \<notin> set (map Name sites)"
  by (induction sites) auto

lemma FindSite_AddSite: "FindSite (AddSite sites s) (Name s) = Some s"
  by (induction sites) auto

lemma FindSite_AddSite_other: "n \<noteq> Name s \<Longrightarrow> FindSite (AddSite sites s) n = FindSite sites n"
  by (induction sites) auto

lemma AddSite_absent: "Name s \<notin> set (map Name sites) \<Longrightarrow> AddSite sites s = sites @ [s]"
  by (induction sites) auto

lemma AddSite_present_names:
  "Name s \<in> set (map Name sites) \<Longrightarrow> map Name (AddSite sites s) = map Name sites"
  by (induction sites) auto

lemma AddSite_present_update:
  "i < length sites \<Longrightarrow> Name (sites ! i) = Name s \<Longrightarrow> \<forall>j<i. Name (sites ! j) \<noteq> Name s
   \<Longrightarrow> AddSite sites s = sites [i := s]"
proof (induction sites arbitrary: i)
  case Nil
  then show ?case by simp
next
  case (Cons a sites)
  show ?case
  proof (cases i)
    case 0
    with Cons.prems show ?thesis by simp
  next
    case (Suc k)
    with Cons.prems have "Name a \<noteq> Name s" by auto
    moreover have "AddSite sites s = sites [k := s]"
      using Cons.prems Suc by (intro Cons.IH) auto
    ultimately show ?thesis using Suc by simp
  qed
qed

lemma AddSite_present_index:
  "Name s \<in> set (map Name sites) \<Longrightarrow> \<exists>i<length sites. AddSite sites s = sites [i := s]"
proof (induction sites)
  case Nil
  then show ?case by simp
next
  case (Cons a sites)
  show ?case
  proof (cases "Name a = Name s")
    case True
    then have "AddSite (a # sites) s = (a # sites) [0 := s]" by simp
    then show ?thesis by blast
  next
    case False
    with Cons obtain i where "i < length sites" "AddSite sites s = sites [i := s]" by auto
    with False have "Suc i < length (a # sites)" "AddSite (a # sites) s = (a # sites) [Suc i := s]"
      by simp_all
    then show ?thesis by blast
  qed
qed

lemma AddSite_distinct:
  "distinct (map Name sites) \<Longrightarrow> distinct (map Name (AddSite sites s))"
proof (cases "Name s \<in> set (map Name sites)")
  case True
  assume "distinct (map Name sites)"
  then show ?thesis by (simp only: AddSite_present_names [OF True])
next
  case False
  assume "distinct (map Name sites)"
  with False show ?thesis by (simp add: AddSite_absent)
qed

lemma RemoveSite_names_subset: "set (map Name (RemoveSite sites n)) \<subseteq> set (map Name sites)"
  by (induction sites) auto

lemma RemoveSite_distinct:
  "distinct (map Name sites) \<Longrightarrow> distinct (map Name (RemoveSite sites n))"
proof (induction sites)
  case Nil
  then show ?case by simp
next
  case (Cons a sites)
  then have "Name a \<notin> set (map Name (RemoveSite sites n))"
    using RemoveSite_names_subset [of sites n] by auto
  with Cons show ?case by simp
qed

lemma apply_op_distinct:
  "distinct (map Name sites) \<Longrightarrow> distinct (map Name (apply_op sites op))"
  by (cases op) (simp_all add: AddSite_distinct RemoveSite_distinct)

lemma foldl_apply_op_distinct:
  "distinct (map Name sites) \<Longrightarrow> distinct (map Name (foldl apply_op sites ops))"
  by (induction ops arbitrary: sites) (simp_all add: apply_op_distinct)

text \<open>Claim C2. For every registry and every site \<open>s\<close>, after the upsert of \<open>s\<close> the
  lookup of its name returns \<open>s\<close>.  If a site of that name was present, the upsert
  replaces a record in place: the registry keeps its length and the names keep their
  positions; otherwise \<open>s\<close> is appended.  A registry without two sites of one name
  stays so, and no registry built from the empty one by upserts and removals ever has
  two sites of one name.\<close>

theorem C2_upsert_then_find:
  "FindSite (AddSite sites s) (Name s) = Some s
   \<and> (FindSite sites (Name s) \<noteq> None \<longrightarrow>
        length (AddSite sites s) = length sites
        \<and> map Name (AddSite sites s) = map Name sites
        \<and> (\<exists>i<length sites. AddSite sites s = sites [i := s]))
   \<and> (FindSite sites (Name s) = None \<longrightarrow> AddSite sites s = sites @ [s])
   \<and> (distinct (map Name sites) \<longrightarrow> distinct (map Name (AddSite sites s)))
   \<and> distinct (map Name (registry_after ops))"
proof -
  have ever: "distinct (map Name (registry_after ops))"
    unfolding registry_after_def by (rule foldl_apply_op_distinct) simp
  have present: "length (AddSite sites s) = length sites
        \<and> map Name (AddSite sites s) = map Name sites
        \<and> (\<exists>i<length sites. AddSite sites s = sites [i := s])"
    if "FindSite sites (Name s) \<noteq> None"
  proof -
    from that have m: "Name s \<in> set (map Name sites)" by (simp add: FindSite_None_iff)
    then have names: "map Name (AddSite sites s) = map Name sites"
      by (rule AddSite_present_names)
    then have len: "length (AddSite sites s) = length sites"
      by (metis length_map)
    from m have "\<exists>i<length sites. AddSite sites s = sites [i := s]"
      by (rule AddSite_present_index)
    with names len show ?thesis by blast
  qed
  show ?thesis
    using present ever
    by (simp add: FindSite_AddSite AddSite_distinct AddSite_absent FindSite_None_iff)
qed

theorem C2_upsert_then_find_witness:
  "FindSite [blog_site, shop_site] (Name (shop_site \<lparr> Secured := False \<rparr>)) \<noteq> None
   \<and> distinct (map Name [blog_site, shop_site])
   \<and> FindSite (AddSite [blog_site, shop_site] (shop_site \<lparr> Secured := False \<rparr>)) ''shop''
       = Some (shop_site \<lparr> Secured := False \<rparr>)
   \<and> length (AddSite [blog_site, shop_site] (shop_site \<lparr> Secured := False \<rparr>)) = 2
   \<and> distinct (map Name (AddSite [blog_site, shop_site] (shop_site \<lparr> Secured := False \<rparr>)))
   \<and> FindSite [blog_site] (Name shop_site) = None
   \<and> AddSite [blog_site] shop_site = [blog_site, shop_site]
   \<and> distinct (map Name (registry_after [Upsert blog_site, Upsert shop_site, Upsert blog_site]))"
  using C2_upsert_then_find [of "[blog_site, shop_site]" "shop_site \<lparr> Secured := False \<rparr>"
      "[Upsert blog_site, Upsert shop_site, Upsert blog_site]"]
    C2_upsert_then_find [of "[blog_site]" shop_site "[]"]
  by (simp add: blog_site_def shop_site_def)

text \<open>Claim C9. For every registry that contains no site of the given name, the
  unlink command fails and leaves the registry as it was: the only call made is the
  loading of the registry, so nothing is changed or saved; and once the registry is
  loaded the failure is the not-found error.\<close>

theorem C9_unlink_absent_site:
  assumes "n \<notin> set (map Name (sites_file w))"
  shows "fst (runUnlink h env goos nginxDir n w) \<noteq> None
       \<and> sites_file (snd (runUnlink h env goos nginxDir n w)) = sites_file w
       \<and> calls (snd (runUnlink h env goos nginxDir n w))
           = calls w @ [(LoadSitesFile, env (calls w) LoadSitesFile)]
       \<and> (env (calls w) LoadSitesFile = Ok
            \<longrightarrow> fst (runUnlink h env goos nginxDir n w) = Some (SiteNotFound n))"
proof -
  have "FindSite (sites_file w) n = None"
    using assms by (simp only: FindSite_None_iff not_False_eq_True)
  then show ?thesis
    by (simp add: runUnlink_def LoadSites_def sys_def)
qed

theorem C9_unlink_absent_site_witness:
  "''wiki'' \<notin> set (map Name (sites_file two_sites))
   \<and> all_ok_env (calls two_sites) LoadSitesFile = Ok
   \<and> fst (runUnlink host_two_dirs all_ok_env ''linux'' ''/home/u/.phppark/nginx'' ''wiki'' two_sites)
       = Some (SiteNotFound ''wiki'')
   \<and> sites_file (snd (runUnlink host_two_dirs all_ok_env ''linux'' ''/home/u/.phppark/nginx''
                         ''wiki'' two_sites))
       = [blog_site, shop_site]
   \<and> calls (snd (runUnlink host_two_dirs all_ok_env ''linux'' ''/home/u/.phppark/nginx''
                    ''wiki'' two_sites))
       = [(LoadSitesFile, Ok)]"
proof -
  have a: "''wiki'' \<notin> set (map Name (sites_file two_sites))"
    by (simp add: two_sites_def blog_site_def shop_site_def)
  have b: "all_ok_env (calls two_sites) LoadSitesFile = Ok"
    by (simp add: all_ok_env_def)
  from C9_unlink_absent_site [OF a, of host_two_dirs all_ok_env "''linux''"
      "''/home/u/.phppark/nginx''"] a b
  show ?thesis by (simp add: two_sites_def)
qed

end
